theory Spec2Isabelle
  imports Main "HOL-Library.Sublist"
begin

section \<open>Python strings\<close>

text \<open>
  A Python \<open>str\<close> is a sequence of code points. It is modelled by \<open>string\<close>, each
  \<open>char\<close> standing for the code point of the same number, so the model covers the
  strings over the code points below 256. \<open>isspace\<close>, \<open>strip\<close> and \<open>lower\<close> are
  Python's \<open>str.isspace\<close>, \<open>str.strip()\<close> and \<open>str.lower()\<close> on that range.
\<close>

definition isspace :: "char \<Rightarrow> bool" where
  "isspace c = (c \<in> set [CHR 0x09, CHR 0x0A, CHR 0x0B, CHR 0x0C, CHR 0x0D,
                          CHR 0x1C, CHR 0x1D, CHR 0x1E, CHR 0x1F, CHR 0x20,
                          CHR 0x85, CHR 0xA0])"

definition strip :: "string \<Rightarrow> string" where
  "strip s = rev (dropWhile isspace (rev (dropWhile isspace s)))"

definition lower_char :: "char \<Rightarrow> char" where
  "lower_char c =
     (let n = (of_char c :: nat)
      in if (65 \<le> n \<and> n \<le> 90) \<or> (192 \<le> n \<and> n \<le> 222 \<and> n \<noteq> 215)
         then char_of (n + 32) else c)"

definition lower :: "string \<Rightarrow> string" where
  "lower s = map lower_char s"

section \<open>Data frames\<close>

text \<open>
  A cell holds a string, a boolean or nothing (pandas' NaN). A row maps column names to
  cells, so a column name stands for one column; a frame has its column names in order
  and its rows, each with its index label. Cells are treated one by one: numbers, and the
  dtype that pandas gives a column, are outside the model.
\<close>

datatype val = NaN | Str string | Bool bool

type_synonym row = "string \<rightharpoonup> val"

record frame =
  columns :: "string list"
  rows :: "(nat \<times> row) list"

datatype error = KeyError string | TypeError | ReError

definition cell :: "row \<Rightarrow> string \<Rightarrow> val" where
  "cell r c = (case r c of None \<Rightarrow> NaN | Some v \<Rightarrow> v)"

definition canonical_columns :: "string list" where
  "canonical_columns =
     [''Date Added'', ''Item Needed'', ''Quantity'', ''Where to Get'', ''Urgency'', ''Completed'']"

text \<open>\<open>pd.DataFrame(columns=[...])\<close>: the six columns and no row.\<close>

definition new_frame :: frame where
  "new_frame = \<lparr>columns = canonical_columns, rows = []\<rparr>"

text \<open>\<open>df.empty\<close>: an axis of length 0.\<close>

definition df_empty :: "frame \<Rightarrow> bool" where
  "df_empty d = (columns d = [] \<or> rows d = [])"

text \<open>Reading a row on the columns \<open>cs\<close>: a cell the row lacks is NaN.\<close>

definition reindex :: "string list \<Rightarrow> row \<Rightarrow> row" where
  "reindex cs r = (\<lambda>c. if c \<in> set cs then Some (cell r c) else None)"

text \<open>A frame is well formed when each row has a cell for each column and no other.\<close>

definition wf_frame :: "frame \<Rightarrow> bool" where
  "wf_frame d = (\<forall>(l, r) \<in> set (rows d). dom r = set (columns d))"

text \<open>The default index of pandas: the labels are the positions.\<close>

definition range_index :: "frame \<Rightarrow> bool" where
  "range_index d = (map fst (rows d) = [0..<length (rows d)])"

definition reset_index :: "row list \<Rightarrow> (nat \<times> row) list" where
  "reset_index rs = zip [0..<length rs] rs"

section \<open>The remote sheet\<close>

text \<open>
  The worksheet behind the connection holds a header and records; index labels are not
  stored. \<open>conn.read\<close> gives a frame with the default index, or nothing; \<open>conn.update\<close>
  replaces the worksheet by the frame's columns and rows. \<open>update_calls\<close> counts the
  calls of \<open>conn.update\<close>.
\<close>

record worksheet =
  header :: "string list"
  records :: "row list"

record gsheets =
  sheet :: "worksheet option"
  update_calls :: nat

definition gsheets_read :: "gsheets \<Rightarrow> frame option" where
  "gsheets_read c =
     map_option (\<lambda>w. \<lparr>columns = header w, rows = reset_index (records w)\<rparr>) (sheet c)"

definition gsheets_update :: "gsheets \<Rightarrow> frame \<Rightarrow> gsheets" where
  "gsheets_update c d =
     c\<lparr>sheet := Some \<lparr>header = columns d, records = map snd (rows d)\<rparr>,
       update_calls := Suc (update_calls c)\<rparr>"

text \<open>\<open>fillna(False).astype(bool)\<close> on one cell: Python's truth value of a string.\<close>

definition fillna_astype_bool :: "val \<Rightarrow> val" where
  "fillna_astype_bool v =
     (case v of NaN \<Rightarrow> Bool False | Bool b \<Rightarrow> Bool b | Str s \<Rightarrow> Bool (s \<noteq> []))"

text \<open>\<open>df[c] = df[c].apply(f)\<close> and \<open>df[c] = v\<close> for a new column \<open>c\<close>.\<close>

definition map_column :: "string \<Rightarrow> (val \<Rightarrow> val) \<Rightarrow> frame \<Rightarrow> frame" where
  "map_column c f d = d\<lparr>rows := map (\<lambda>(l, r). (l, r(c \<mapsto> f (cell r c)))) (rows d)\<rparr>"

definition add_column :: "string \<Rightarrow> val \<Rightarrow> frame \<Rightarrow> frame" where
  "add_column c v d =
     \<lparr>columns = columns d @ [c], rows = map (\<lambda>(l, r). (l, r(c \<mapsto> v))) (rows d)\<rparr>"

text \<open>The body of \<open>load_data\<close>, under its decorator.\<close>

definition load_data_body :: "gsheets \<Rightarrow> frame" where
  "load_data_body c =
     (let d = (case gsheets_read c of
                 None \<Rightarrow> new_frame
               | Some d \<Rightarrow> if df_empty d then new_frame else d)
      in if ''Completed'' \<in> set (columns d)
         then map_column ''Completed'' fillna_astype_bool d
         else d)"

text \<open>
  \<open>@st.cache_data(ttl=60)\<close>: \<open>load_data\<close> keeps the frame that its body returned, with
  the time of that call. A call less than 60 seconds later returns the kept frame and
  does not read the worksheet; any other call runs the body and keeps its frame. Time is
  counted in seconds; there is one connection, so one entry.
\<close>

record cache_entry =
  cached :: frame
  cached_at :: nat

definition ttl :: nat where
  "ttl = 60"

definition fresh :: "cache_entry option \<Rightarrow> nat \<Rightarrow> bool" where
  "fresh cache now = (case cache of None \<Rightarrow> False | Some e \<Rightarrow> now < cached_at e + ttl)"

definition load_data :: "cache_entry option \<Rightarrow> nat \<Rightarrow> gsheets \<Rightarrow> frame \<times> cache_entry option" where
  "load_data cache now c =
     (case cache of
        None \<Rightarrow> (let d = load_data_body c in (d, Some \<lparr>cached = d, cached_at = now\<rparr>))
      | Some e \<Rightarrow>
          if now < cached_at e + ttl then (cached e, cache)
          else (let d = load_data_body c in (d, Some \<lparr>cached = d, cached_at = now\<rparr>)))"

definition ensure_column :: "string \<Rightarrow> frame \<Rightarrow> frame" where
  "ensure_column col d =
     (if col \<notin> set (columns d)
      then add_column col (if col \<noteq> ''Completed'' then Str [] else Bool False) d
      else d)"

text \<open>
  \<open>save_data\<close> adds the missing columns to the frame it is given (the caller's frame is
  changed in place) and writes it; the model returns the connection and the frame.
\<close>

definition save_data :: "gsheets \<Rightarrow> frame \<Rightarrow> gsheets \<times> frame" where
  "save_data c d =
     (let d' = fold ensure_column canonical_columns d in (gsheets_update c d', d'))"

section \<open>The session\<close>

record session =
  df :: frame
  conn :: gsheets

datatype notice = ErrorNotice string | SuccessNotice string

text \<open>\<open>pd.concat([a, b], ignore_index=True)\<close>: the columns of \<open>a\<close>, then the new ones of
  \<open>b\<close>; the rows of both on these columns, labelled afresh.\<close>

definition concat_ignore_index :: "frame \<Rightarrow> frame \<Rightarrow> frame" where
  "concat_ignore_index a b =
     (let cs = columns a @ filter (\<lambda>c. c \<notin> set (columns a)) (columns b)
      in \<lparr>columns = cs, rows = reset_index (map (reindex cs \<circ> snd) (rows a @ rows b))\<rparr>)"

definition new_row :: "string \<Rightarrow> string \<Rightarrow> string \<Rightarrow> string \<Rightarrow> string \<Rightarrow> row" where
  "new_row now item_needed quantity where_to_get urgency =
     [''Date Added'' \<mapsto> Str now,
      ''Item Needed'' \<mapsto> Str (strip item_needed),
      ''Quantity'' \<mapsto> Str (strip quantity),
      ''Where to Get'' \<mapsto> Str (strip where_to_get),
      ''Urgency'' \<mapsto> Str urgency,
      ''Completed'' \<mapsto> Bool False]"

text \<open>
  The handler of the form \<open>add_item_form\<close>. \<open>now\<close> is the text of
  \<open>datetime.now().strftime("%Y-%m-%d %H:%M")\<close>.
\<close>

definition add_item ::
  "string \<Rightarrow> string \<Rightarrow> string \<Rightarrow> string \<Rightarrow> string \<Rightarrow> session \<Rightarrow> session \<times> notice" where
  "add_item now item_needed quantity where_to_get urgency s =
     (if strip item_needed = []
      then (s, ErrorNotice ''Item Needed is required.'')
      else
        let r = new_row now item_needed quantity where_to_get urgency;
            d = concat_ignore_index (df s) \<lparr>columns = canonical_columns, rows = [(0, r)]\<rparr>;
            (c', d') = save_data (conn s) d
        in (\<lparr>df = d', conn = c'\<rparr>,
            SuccessNotice (''Added '' @ [CHR 0x27] @ item_needed @ [CHR 0x27] @ '' to the list!'')))"

definition create_new_list :: "session \<Rightarrow> session" where
  "create_new_list s = (let (c', d') = save_data (conn s) new_frame in \<lparr>df = d', conn = c'\<rparr>)"

section \<open>The filtered data\<close>

text \<open>
  \<open>str.contains(s, na=False)\<close> of pandas searches with Python's \<open>re\<close> (its default is
  \<open>regex=True\<close>). The regular-expression engine is a parameter: \<open>re pat\<close> is \<open>None\<close> when
  \<open>re.compile(pat)\<close> raises \<open>re.error\<close>, and otherwise the test \<open>re.search(pat, x) is not None\<close>.
\<close>

type_synonym regex = "string \<Rightarrow> (string \<Rightarrow> bool) option"

definition bind :: "error + 'a \<Rightarrow> ('a \<Rightarrow> error + 'b) \<Rightarrow> error + 'b" where
  "bind m f = (case m of Inl e \<Rightarrow> Inl e | Inr x \<Rightarrow> f x)"

text \<open>
  \<open>df[c]\<close>, \<open>df[mask]\<close>, \<open>series.isin(xs)\<close>, \<open>~series\<close>, \<open>series.str.lower()\<close>,
  \<open>series.str.contains(pat, na=na)\<close> and \<open>a | b\<close>.

  \<open>~\<close> and the \<open>.str\<close> accessor depend on the dtype that pandas has given the column,
  which the frames here do not record. \<open>invert\<close> is \<open>~\<close> on a column of dtype bool, and
  \<open>str_lower\<close> is \<open>.str.lower()\<close> on a column of dtype object. On a \<open>Completed\<close> column of
  dtype object that holds booleans, \<open>~\<close> gives integers and the selection raises
  \<open>KeyError\<close>; on a column of a dtype without strings, \<open>.str\<close> raises \<open>AttributeError\<close>.
  There the code raises and these functions still answer. So whenever the code computes
  a view, \<open>filtered_data\<close> computes the same rows, and the theorems about a view say what
  it is when the code computes one; no theorem says that a view is computed where \<open>~\<close>
  or \<open>.str\<close> is used.
\<close>

definition get_column :: "frame \<Rightarrow> string \<Rightarrow> error + val list" where
  "get_column d c =
     (if c \<in> set (columns d) then Inr (map (\<lambda>(l, r). cell r c) (rows d)) else Inl (KeyError c))"

definition boolean_mask :: "frame \<Rightarrow> bool list \<Rightarrow> frame" where
  "boolean_mask d m = d\<lparr>rows := map snd (filter fst (zip m (rows d)))\<rparr>"

definition isin :: "val list \<Rightarrow> string list \<Rightarrow> bool list" where
  "isin vs xs = map (\<lambda>v. case v of Str s \<Rightarrow> s \<in> set xs | _ \<Rightarrow> False) vs"

definition is_bool :: "val \<Rightarrow> bool" where
  "is_bool v = (case v of Bool b \<Rightarrow> True | _ \<Rightarrow> False)"

definition invert :: "val list \<Rightarrow> error + bool list" where
  "invert vs = (if list_all is_bool vs then Inr (map (\<lambda>v. v = Bool False) vs) else Inl TypeError)"

definition str_lower :: "val list \<Rightarrow> val list" where
  "str_lower vs = map (\<lambda>v. case v of Str s \<Rightarrow> Str (lower s) | _ \<Rightarrow> NaN) vs"

definition str_contains :: "regex \<Rightarrow> string \<Rightarrow> bool \<Rightarrow> val list \<Rightarrow> error + bool list" where
  "str_contains re pat na vs =
     (case re pat of
        None \<Rightarrow> Inl ReError
      | Some m \<Rightarrow> Inr (map (\<lambda>v. case v of Str s \<Rightarrow> m s | _ \<Rightarrow> na) vs))"

definition mask_or :: "bool list \<Rightarrow> bool list \<Rightarrow> bool list" where
  "mask_or a b = map (\<lambda>(x, y). x \<or> y) (zip a b)"

definition filter_urgency :: "frame \<Rightarrow> string list \<Rightarrow> error + frame" where
  "filter_urgency d urgency_filter =
     (if urgency_filter \<noteq> []
      then bind (get_column d ''Urgency'') (\<lambda>u. Inr (boolean_mask d (isin u urgency_filter)))
      else Inr d)"

definition filter_completed :: "frame \<Rightarrow> bool \<Rightarrow> error + frame" where
  "filter_completed d show_completed =
     (if \<not> show_completed
      then bind (get_column d ''Completed'') (\<lambda>c.
           bind (invert c) (\<lambda>m. Inr (boolean_mask d m)))
      else Inr d)"

definition filter_search :: "regex \<Rightarrow> frame \<Rightarrow> string \<Rightarrow> error + frame" where
  "filter_search re d search_text =
     (if strip search_text \<noteq> []
      then
        let s = lower (strip search_text)
        in bind (get_column d ''Item Needed'') (\<lambda>a.
           bind (str_contains re s False (str_lower a)) (\<lambda>ma.
           bind (get_column d ''Where to Get'') (\<lambda>b.
           bind (str_contains re s False (str_lower b)) (\<lambda>mb.
             Inr (boolean_mask d (mask_or ma mb))))))
      else Inr d)"

text \<open>
  The section \<open>FILTERED DATA\<close>: a copy of the session's frame, filtered three times. It
  reads the session's frame and gives the view; the session is not among its results.
\<close>

definition filtered_data ::
  "regex \<Rightarrow> session \<Rightarrow> string list \<Rightarrow> bool \<Rightarrow> string \<Rightarrow> error + frame" where
  "filtered_data re s urgency_filter show_completed search_text =
     bind (filter_urgency (df s) urgency_filter) (\<lambda>d1.
     bind (filter_completed d1 show_completed) (\<lambda>d2.
       filter_search re d2 search_text))"

text \<open>
  Python's \<open>re\<close> on the patterns made of plain characters and dots: a plain character
  matches itself, a dot matches any character but the line feed, and \<open>re.search\<close> looks
  for a match at any position of the text. \<open>re_literal\<close> stands for Python's engine on
  these patterns only, and the examples use it on them only; on a pattern with another
  metacharacter it answers \<open>None\<close>, which is not what Python does for every such pattern.
\<close>

definition re_metachars :: "char list" where
  "re_metachars = ''.^$*+?{}[]|()'' @ [CHR 0x5C]"

fun match_here :: "string \<Rightarrow> string \<Rightarrow> bool" where
  "match_here [] s = True"
| "match_here (p # ps) [] = False"
| "match_here (p # ps) (c # s) =
     ((if p = CHR ''.'' then c \<noteq> CHR 0x0A else c = p) \<and> match_here ps s)"

fun re_search :: "string \<Rightarrow> string \<Rightarrow> bool" where
  "re_search pat [] = match_here pat []"
| "re_search pat (c # s) = (match_here pat (c # s) \<or> re_search pat s)"

definition re_literal :: regex where
  "re_literal pat =
     (if list_ex (\<lambda>c. c \<in> set re_metachars \<and> c \<noteq> CHR ''.'') pat then None
      else Some (re_search pat))"

text \<open>A text contains another: the other is a run of consecutive characters of it.\<close>

fun substring :: "string \<Rightarrow> string \<Rightarrow> bool" where
  "substring pat [] = (pat = [])"
| "substring pat (c # s) = (prefix pat (c # s) \<or> substring pat s)"

section \<open>The editable table\<close>

text \<open>
  \<open>df.loc[e.index, :] = e\<close>: each row of \<open>d\<close> whose label is a label of \<open>e\<close> takes the
  row of \<open>e\<close> with that label, read on the columns of \<open>d\<close>; a label of \<open>e\<close> that \<open>d\<close>
  lacks is a \<open>KeyError\<close>.
\<close>

definition loc_assign :: "frame \<Rightarrow> frame \<Rightarrow> error + frame" where
  "loc_assign d e =
     (if list_all (\<lambda>l. l \<in> set (map fst (rows d))) (map fst (rows e))
      then Inr (d\<lparr>rows := map (\<lambda>(l, r). case map_of (rows e) l of
                                           None \<Rightarrow> (l, r)
                                         | Some r' \<Rightarrow> (l, reindex (columns d) r')) (rows d)\<rparr>)
      else Inl (KeyError ''not in index''))"

text \<open>The write-back of the edited frame and the save that follows it.\<close>

definition apply_edits :: "frame \<Rightarrow> session \<Rightarrow> error + session" where
  "apply_edits edited_df s =
     bind (loc_assign (df s) edited_df) (\<lambda>d.
       let (c', d') = save_data (conn s) d in Inr \<lparr>df = d', conn = c'\<rparr>)"

text \<open>
  The section \<open>EDITABLE TABLE\<close>: nothing happens on an empty view; otherwise the grid
  (\<open>data_editor\<close>, the user's edits of the view) gives the edited frame.
\<close>

definition edit_section :: "(frame \<Rightarrow> frame) \<Rightarrow> frame \<Rightarrow> session \<Rightarrow> error + session" where
  "edit_section data_editor view s =
     (if df_empty view then Inr s else apply_edits (data_editor view) s)"

section \<open>The export\<close>

text \<open>
  \<open>to_csv(index=False)\<close> writes the column names and then each row with Python's
  \<open>csv.writer\<close>: comma, double quote, minimal quoting, line feed after each record.
\<close>

definition LF :: char where
  "LF = CHR 0x0A"

definition csv_special :: "char \<Rightarrow> bool" where
  "csv_special c = (c \<in> set [CHR '','', CHR 0x22, CHR 0x0A, CHR 0x0D])"

definition csv_field :: "string \<Rightarrow> string" where
  "csv_field f =
     (if list_ex csv_special f
      then [CHR 0x22] @ concat (map (\<lambda>c. if c = CHR 0x22 then [c, c] else [c]) f) @ [CHR 0x22]
      else f)"

fun join :: "string \<Rightarrow> string list \<Rightarrow> string" where
  "join sep [] = []"
| "join sep [x] = x"
| "join sep (x # y # ys) = x @ sep @ join sep (y # ys)"

text \<open>A record of one empty field is written as two double quotes.\<close>

definition csv_record :: "string list \<Rightarrow> string" where
  "csv_record fs = (if fs = [[]] then [CHR 0x22, CHR 0x22] else join '','' (map csv_field fs))"

definition format_val :: "val \<Rightarrow> string" where
  "format_val v = (case v of NaN \<Rightarrow> [] | Str s \<Rightarrow> s | Bool b \<Rightarrow> (if b then ''True'' else ''False''))"

definition csv_row :: "string list \<Rightarrow> row \<Rightarrow> string" where
  "csv_row cs r = csv_record (map (\<lambda>c. format_val (cell r c)) cs)"

definition to_csv :: "frame \<Rightarrow> string" where
  "to_csv d =
     concat (map (\<lambda>l. l @ [LF]) (csv_record (columns d) # map (\<lambda>(l, r). csv_row (columns d) r) (rows d)))"

definition export_csv :: "session \<Rightarrow> string option" where
  "export_csv s = (if \<not> df_empty (df s) then Some (to_csv (df s)) else None)"

text \<open>The lines of a text: the pieces that a line feed ends, and a last piece without one.\<close>

fun lines_from :: "string \<Rightarrow> string \<Rightarrow> string list" where
  "lines_from cur [] = (if cur = [] then [] else [cur])"
| "lines_from cur (c # cs) =
     (if c = LF then cur # lines_from [] cs else lines_from (cur @ [c]) cs)"

definition text_lines :: "string \<Rightarrow> string list" where
  "text_lines t = lines_from [] t"

section \<open>Tables, and the filters row by row\<close>

text \<open>
  A table is a frame as the specification has it: the six columns in their order, a cell
  in each row for each of them, the default index, and booleans in \<open>Completed\<close>.
\<close>

definition is_table :: "frame \<Rightarrow> bool" where
  "is_table d =
     (columns d = canonical_columns \<and> wf_frame d \<and> range_index d \<and>
      (\<forall>(l, r) \<in> set (rows d). is_bool (cell r ''Completed'')))"

text \<open>The three conditions on a row, in the words of the specification, as the code
  has them: no urgency selected selects every row, and so does a blank search text.\<close>

definition urgency_selected :: "string list \<Rightarrow> row \<Rightarrow> bool" where
  "urgency_selected urgency_filter r =
     (urgency_filter = [] \<or> (\<exists>u \<in> set urgency_filter. cell r ''Urgency'' = Str u))"

definition completed_visible :: "bool \<Rightarrow> row \<Rightarrow> bool" where
  "completed_visible show_completed r = (show_completed \<or> cell r ''Completed'' = Bool False)"

definition field_hit :: "(string \<Rightarrow> bool) \<Rightarrow> val \<Rightarrow> bool" where
  "field_hit m v = (case v of Str x \<Rightarrow> m (lower x) | _ \<Rightarrow> False)"

definition search_hit :: "regex \<Rightarrow> string \<Rightarrow> row \<Rightarrow> bool" where
  "search_hit re search_text r =
     (strip search_text = [] \<or>
      (\<exists>m. re (lower (strip search_text)) = Some m \<and>
           (field_hit m (cell r ''Item Needed'') \<or> field_hit m (cell r ''Where to Get''))))"

definition select_rows :: "(row \<Rightarrow> bool) \<Rightarrow> frame \<Rightarrow> frame" where
  "select_rows p d = d\<lparr>rows := filter (\<lambda>(l, r). p r) (rows d)\<rparr>"

text \<open>
  A worksheet is normalised when it has each of the six columns, a boolean in each
  \<open>Completed\<close> cell and, if it has no record, the six columns in their order as its
  header.
\<close>

definition bool_completed :: "row \<Rightarrow> bool" where
  "bool_completed r = (case r ''Completed'' of Some (Bool b) \<Rightarrow> True | _ \<Rightarrow> False)"

definition normalised :: "worksheet \<Rightarrow> bool" where
  "normalised w =
     (list_all (\<lambda>c. c \<in> set (header w)) canonical_columns \<and>
      (records w = [] \<longrightarrow> header w = canonical_columns) \<and>
      list_all bool_completed (records w))"

text \<open>A frame is single-line when no cell, as it is written, has a line feed in it.\<close>

definition single_line :: "frame \<Rightarrow> bool" where
  "single_line d =
     list_all (\<lambda>(l, r). list_all (\<lambda>c. LF \<notin> set (format_val (cell r c))) (columns d)) (rows d)"

definition csv_header :: string where
  "csv_header = ''Date Added,Item Needed,Quantity,Where to Get,Urgency,Completed''"

section \<open>Example data\<close>

definition milk_row :: row where
  "milk_row =
     [''Date Added'' \<mapsto> Str ''2024-01-01 10:00'', ''Item Needed'' \<mapsto> Str ''Milk'',
      ''Quantity'' \<mapsto> Str ''2 gallons'', ''Where to Get'' \<mapsto> Str ''Walmart'',
      ''Urgency'' \<mapsto> Str ''Now'', ''Completed'' \<mapsto> Bool False]"

definition eggs_row :: row where
  "eggs_row =
     [''Date Added'' \<mapsto> Str ''2024-01-02 09:30'', ''Item Needed'' \<mapsto> Str ''Eggs'',
      ''Quantity'' \<mapsto> Str ''12'', ''Where to Get'' \<mapsto> Str ''Aldi'',
      ''Urgency'' \<mapsto> Str ''Soon'', ''Completed'' \<mapsto> Bool True]"

text \<open>A row typed into the sheet with the item and the shop left blank.\<close>

definition blank_row :: row where
  "blank_row =
     [''Date Added'' \<mapsto> Str ''2024-01-03 08:00'', ''Item Needed'' \<mapsto> NaN,
      ''Quantity'' \<mapsto> Str ''1'', ''Where to Get'' \<mapsto> NaN,
      ''Urgency'' \<mapsto> Str ''Now'', ''Completed'' \<mapsto> Bool False]"

text \<open>A row typed into the sheet with the \<open>Completed\<close> cell left blank.\<close>

definition unticked_row :: row where
  "unticked_row =
     [''Date Added'' \<mapsto> Str ''2024-01-04 07:00'', ''Item Needed'' \<mapsto> Str ''Bread'',
      ''Quantity'' \<mapsto> Str ''1'', ''Where to Get'' \<mapsto> Str ''Bakery'',
      ''Urgency'' \<mapsto> Str ''Now'', ''Completed'' \<mapsto> NaN]"

definition unticked_sheet :: gsheets where
  "unticked_sheet =
     \<lparr>sheet = Some \<lparr>header = canonical_columns, records = [unticked_row]\<rparr>, update_calls = 0\<rparr>"

definition two_sheet :: gsheets where
  "two_sheet =
     \<lparr>sheet = Some \<lparr>header = canonical_columns, records = [milk_row, eggs_row]\<rparr>,
      update_calls = 3\<rparr>"

text \<open>A row whose item was typed on two lines in a cell of the sheet.\<close>

definition two_line_row :: row where
  "two_line_row =
     [''Date Added'' \<mapsto> Str ''2024-01-05 18:00'',
      ''Item Needed'' \<mapsto> Str (''Oat milk'' @ [LF] @ ''unsweetened''),
      ''Quantity'' \<mapsto> Str ''1'', ''Where to Get'' \<mapsto> Str ''Aldi'',
      ''Urgency'' \<mapsto> Str ''Soon'', ''Completed'' \<mapsto> Bool False]"

definition two_line_table :: frame where
  "two_line_table = \<lparr>columns = canonical_columns, rows = [(0, two_line_row)]\<rparr>"

text \<open>A frame read from a sheet that has the quantity column only.\<close>

definition quantity_frame :: frame where
  "quantity_frame = \<lparr>columns = [''Quantity''], rows = [(0, [''Quantity'' \<mapsto> Str ''1''])]\<rparr>"

text \<open>The frame loaded at second 100, when the sheet had the milk row only.\<close>

definition milk_cache :: "cache_entry option" where
  "milk_cache =
     Some \<lparr>cached = \<lparr>columns = canonical_columns, rows = [(0, milk_row)]\<rparr>, cached_at = 100\<rparr>"

definition no_sheet :: gsheets where
  "no_sheet = \<lparr>sheet = None, update_calls = 0\<rparr>"

definition milk_table :: frame where
  "milk_table = \<lparr>columns = canonical_columns, rows = [(0, milk_row)]\<rparr>"

definition two_table :: frame where
  "two_table = \<lparr>columns = canonical_columns, rows = [(0, milk_row), (1, eggs_row)]\<rparr>"

definition blank_table :: frame where
  "blank_table = \<lparr>columns = canonical_columns, rows = [(0, blank_row)]\<rparr>"

definition three_table :: frame where
  "three_table =
     \<lparr>columns = canonical_columns, rows = [(0, milk_row), (1, eggs_row), (2, blank_row)]\<rparr>"

definition eggs_view :: frame where
  "eggs_view = \<lparr>columns = canonical_columns, rows = [(1, eggs_row)]\<rparr>"

text \<open>The eggs row after the grid: the row not completed any more, and its date edited.\<close>

definition eggs_edited_row :: row where
  "eggs_edited_row =
     [''Date Added'' \<mapsto> Str ''2024-02-02 12:00'', ''Item Needed'' \<mapsto> Str ''Eggs'',
      ''Quantity'' \<mapsto> Str ''12'', ''Where to Get'' \<mapsto> Str ''Aldi'',
      ''Urgency'' \<mapsto> Str ''Soon'', ''Completed'' \<mapsto> Bool False]"

definition eggs_edited :: frame where
  "eggs_edited = \<lparr>columns = canonical_columns, rows = [(1, eggs_edited_row)]\<rparr>"

definition two_table_edited :: frame where
  "two_table_edited =
     \<lparr>columns = canonical_columns, rows = [(0, milk_row), (1, eggs_edited_row)]\<rparr>"

section \<open>Strings: facts\<close>

lemma all_dropWhile: "(\<forall>x \<in> set (dropWhile P s). P x) \<longleftrightarrow> (\<forall>x \<in> set s. P x)"
  by (induction s) auto

lemma strip_empty_iff: "strip s = [] \<longleftrightarrow> (\<forall>c \<in> set s. isspace c)"
  by (simp add: strip_def dropWhile_eq_Nil_conv all_dropWhile)

section \<open>The filters: facts\<close>

lemma mask_filter: "map snd (filter fst (zip (map p xs) xs)) = filter p xs"
  by (induction xs) auto

lemma boolean_mask_map:
  "boolean_mask d (map (\<lambda>(l, r). p r) (rows d)) = select_rows p d"
  by (simp add: boolean_mask_def select_rows_def mask_filter)

lemma filter_urgency_eq:
  "filter_urgency d uf =
     (if uf \<noteq> [] \<and> ''Urgency'' \<notin> set (columns d) then Inl (KeyError ''Urgency'')
      else Inr (select_rows (urgency_selected uf) d))"
proof -
  have m: "isin (map (\<lambda>(l, r). cell r ''Urgency'') (rows d)) uf
             = map (\<lambda>(l, r). urgency_selected uf r) (rows d)" if "uf \<noteq> []"
    using that by (auto simp: isin_def urgency_selected_def split: val.splits)
  have e: "select_rows (urgency_selected []) d = d"
    by (simp add: select_rows_def urgency_selected_def)
  show ?thesis
    by (simp add: filter_urgency_def get_column_def bind_def m boolean_mask_map e)
qed

lemma invert_completed:
  "invert (map (\<lambda>(l, r). cell r ''Completed'') xs) =
     (if \<forall>(l, r) \<in> set xs. is_bool (cell r ''Completed'')
      then Inr (map (\<lambda>(l, r). completed_visible False r) xs) else Inl TypeError)"
  by (induction xs) (auto simp: invert_def completed_visible_def split: if_splits)

lemma filter_completed_eq:
  "filter_completed d sc =
     (if sc then Inr d
      else if ''Completed'' \<notin> set (columns d) then Inl (KeyError ''Completed'')
      else if \<forall>(l, r) \<in> set (rows d). is_bool (cell r ''Completed'')
           then Inr (select_rows (completed_visible sc) d)
      else Inl TypeError)"
  by (simp add: filter_completed_def get_column_def bind_def invert_completed boolean_mask_map
           del: map_map)

lemma search_mask:
  assumes "re (lower (strip st)) = Some m" and "strip st \<noteq> []"
  shows "mask_or (map (\<lambda>v. case v of Str x \<Rightarrow> m x | _ \<Rightarrow> False)
                    (str_lower (map (\<lambda>(l, r). cell r ''Item Needed'') xs)))
                 (map (\<lambda>v. case v of Str x \<Rightarrow> m x | _ \<Rightarrow> False)
                    (str_lower (map (\<lambda>(l, r). cell r ''Where to Get'') xs)))
           = map (\<lambda>(l, r). search_hit re st r) (xs :: (nat \<times> row) list)"
  using assms
  by (induction xs)
     (auto simp: mask_or_def str_lower_def search_hit_def field_hit_def split: val.splits)

lemma filter_search_eq:
  "filter_search re d st =
     (if strip st = [] then Inr d
      else if ''Item Needed'' \<notin> set (columns d) then Inl (KeyError ''Item Needed'')
      else if re (lower (strip st)) = None then Inl ReError
      else if ''Where to Get'' \<notin> set (columns d) then Inl (KeyError ''Where to Get'')
      else Inr (select_rows (search_hit re st) d))"
proof (cases "strip st = [] \<or> ''Item Needed'' \<notin> set (columns d) \<or> re (lower (strip st)) = None
               \<or> ''Where to Get'' \<notin> set (columns d)")
  case True
  then show ?thesis
    by (auto simp: filter_search_def get_column_def bind_def str_contains_def Let_def)
next
  case False
  then obtain m where m: "re (lower (strip st)) = Some m" by auto
  from False have ne: "strip st \<noteq> []" by simp
  note h = search_mask [where re = re and st = st and m = m, OF m ne]
  show ?thesis
    using False m
    by (simp add: filter_search_def get_column_def bind_def str_contains_def Let_def
                  h boolean_mask_map del: map_map)
qed

lemma select_rows_columns [simp]: "columns (select_rows p d) = columns d"
  by (simp add: select_rows_def)

lemma select_rows_rows [simp]: "rows (select_rows p d) = filter (\<lambda>(l, r). p r) (rows d)"
  by (simp add: select_rows_def)

lemma filter_urgency_Inr:
  "filter_urgency d uf = Inr d' \<Longrightarrow> d' = select_rows (urgency_selected uf) d"
  by (simp add: filter_urgency_eq split: if_splits)

lemma filter_completed_Inr:
  "filter_completed d sc = Inr d' \<Longrightarrow> d' = select_rows (completed_visible sc) d"
  by (auto simp: filter_completed_eq select_rows_def completed_visible_def split: if_splits)

lemma filter_search_Inr:
  "filter_search re d st = Inr d' \<Longrightarrow> d' = select_rows (search_hit re st) d"
  by (auto simp: filter_search_eq select_rows_def search_hit_def split: if_splits)

lemma filtered_data_Inr:
  assumes "filtered_data re s uf sc st = Inr v"
  shows "v = select_rows (search_hit re st)
               (select_rows (completed_visible sc) (select_rows (urgency_selected uf) (df s)))"
proof -
  from assms obtain d1 d2 where
    1: "filter_urgency (df s) uf = Inr d1" and
    2: "filter_completed d1 sc = Inr d2" and
    3: "filter_search re d2 st = Inr v"
    by (auto simp: filtered_data_def bind_def split: sum.splits)
  show ?thesis
    using filter_urgency_Inr [OF 1] filter_completed_Inr [OF 2] filter_search_Inr [OF 3]
    by simp
qed

section \<open>Adding an item\<close>

text \<open>
  C3. When the item name is empty or has only whitespace, the handler reports the error
  and returns the session as it was: the table (columns, rows, labels) and the connection
  (the worksheet and the number of \<open>conn.update\<close> calls) are unchanged, so nothing was
  saved.
\<close>

theorem add_item_blank_rejected:
  assumes "\<forall>c \<in> set item_needed. isspace c"
  shows "add_item now item_needed quantity where_to_get urgency s
           = (s, ErrorNotice ''Item Needed is required.'')"
  using assms by (simp add: add_item_def strip_empty_iff)

theorem add_item_blank_rejected_witness:
  "list_all isspace '' '' \<and>
   add_item ''2024-01-01 10:00'' '' '' ''2'' ''Walmart'' ''Now''
      \<lparr>df = new_frame, conn = \<lparr>sheet = None, update_calls = 0\<rparr>\<rparr>
     = (\<lparr>df = new_frame, conn = \<lparr>sheet = None, update_calls = 0\<rparr>\<rparr>,
        ErrorNotice ''Item Needed is required.'')"
proof -
  have h: "\<forall>c \<in> set '' ''. isspace c" by (simp add: isspace_def)
  show ?thesis using h add_item_blank_rejected [OF h] by simp
qed

section \<open>Example data: facts\<close>

lemmas filter_defs = filtered_data_def filter_urgency_def filter_completed_def filter_search_def
  bind_def get_column_def boolean_mask_def isin_def invert_def is_bool_def str_lower_def
  str_contains_def mask_or_def cell_def canonical_columns_def

lemmas example_defs = milk_table_def two_table_def blank_table_def milk_row_def eggs_row_def
  blank_row_def no_sheet_def three_table_def eggs_view_def eggs_edited_row_def eggs_edited_def
  two_table_edited_def


lemma two_table_not_completed:
  "filtered_data re_literal \<lparr>df = two_table, conn = no_sheet\<rparr>
       [''Now'', ''Soon'', ''Yesterday!''] False []
     = Inr milk_table"
  by (simp add: filter_defs example_defs strip_def)

section \<open>The filtered view\<close>

text \<open>
  C1, as the code has it. With no urgency selected the urgency filter is skipped: with
  completed rows shown and an empty search text the view is the whole frame. With
  completed rows hidden and an empty search text, whatever urgencies are selected (all
  three among them), every row of a view that is computed has \<open>Completed\<close> false.
\<close>

theorem filter_composition:
  "filtered_data re s [] True [] = Inr (df s) \<and>
   (\<forall>v. filtered_data re s uf False [] = Inr v \<longrightarrow>
        (\<forall>(l, r) \<in> set (rows v). cell r ''Completed'' = Bool False))"
proof (intro conjI allI impI)
  show "filtered_data re s [] True [] = Inr (df s)"
    by (simp add: filtered_data_def filter_urgency_def filter_completed_def filter_search_def
                  bind_def strip_def)
next
  fix v assume "filtered_data re s uf False [] = Inr v"
  from filtered_data_Inr [OF this]
  show "\<forall>(l, r) \<in> set (rows v). cell r ''Completed'' = Bool False"
    by (auto simp: completed_visible_def)
qed

theorem filter_composition_witness:
  "filtered_data re_literal \<lparr>df = two_table, conn = no_sheet\<rparr> [] True [] = Inr two_table \<and>
   filtered_data re_literal \<lparr>df = two_table, conn = no_sheet\<rparr>
       [''Now'', ''Soon'', ''Yesterday!''] False []
     = Inr milk_table \<and>
   rows two_table = [(0, milk_row), (1, eggs_row)] \<and>
   cell eggs_row ''Completed'' = Bool True \<and>
   rows milk_table = [(0, milk_row)] \<and> cell milk_row ''Completed'' = Bool False"
  using filter_composition [of re_literal "\<lparr>df = two_table, conn = no_sheet\<rparr>"
                               "[''Now'', ''Soon'', ''Yesterday!'']"]
        two_table_not_completed
  by (simp add: milk_table_def two_table_def eggs_row_def cell_def)

text \<open>
  The claim as stated fails: on the table of one row, no urgency selected, completed rows
  shown and no search text, the view has that row, not zero rows.
\<close>

theorem empty_urgency_counterexample:
  "filtered_data re_literal \<lparr>df = milk_table, conn = no_sheet\<rparr> [] True [] = Inr milk_table \<and>
   length (rows milk_table) = 1"
  by (simp add: filter_defs example_defs strip_def)

lemma strings_eval:
  "strip '' mILk '' = ''mILk''" "lower ''mILk'' = ''milk''"
  "strip '' milk'' = ''milk''" "lower '' milk'' = '' milk''"
  "lower ''milk'' = ''milk''"
  "lower ''Milk'' = ''milk''" "lower ''Walmart'' = ''walmart''"
  "lower ''Eggs'' = ''eggs''" "lower ''Aldi'' = ''aldi''"
  "strip '' '' = []" "strip ''milk'' = ''milk''"
  "strip ''m.lk'' = ''m.lk''" "lower ''m.lk'' = ''m.lk''"
  by code_simp+

lemma re_literal_milk:
  "re_literal ''milk'' = Some (re_search ''milk'')"
  "re_literal ''m.lk'' = Some (re_search ''m.lk'')"
  by (simp_all add: re_literal_def re_metachars_def)



lemma quantity_frame_errors:
  "filtered_data re_literal \<lparr>df = quantity_frame, conn = no_sheet\<rparr> [''Now''] False ''milk''
     = Inl (KeyError ''Urgency'')"
  "filtered_data re_literal \<lparr>df = quantity_frame, conn = no_sheet\<rparr> [] False ''milk''
     = Inl (KeyError ''Completed'')"
  "filtered_data re_literal \<lparr>df = quantity_frame, conn = no_sheet\<rparr> [] True ''milk''
     = Inl (KeyError ''Item Needed'')"
  by (simp_all add: filter_defs quantity_frame_def strings_eval Let_def)





lemma range_index_nth:
  assumes "range_index d" and "(l, r) \<in> set (rows d)"
  shows "l < length (rows d) \<and> rows d ! l = (l, r)"
proof -
  from assms(2) obtain i where i: "i < length (rows d)" "rows d ! i = (l, r)"
    by (auto simp: in_set_conv_nth)
  have "map fst (rows d) ! i = [0..<length (rows d)] ! i"
    using assms(1) by (simp add: range_index_def)
  with i have "l = i" by simp
  with i show ?thesis by simp
qed

lemma sorted_labels_filter:
  assumes "range_index d"
  shows "sorted_wrt (<) (map fst (filter p (rows d)))"
proof -
  have "sorted_wrt (<) (map fst (rows d))"
    using assms by (simp add: range_index_def)
  then have "sorted_wrt (\<lambda>x y. fst x < fst y) (rows d)"
    by (simp add: sorted_wrt_map)
  then have "sorted_wrt (\<lambda>x y. fst x < fst y) (filter p (rows d))"
    by (rule sorted_wrt_filter)
  then show ?thesis by (simp add: sorted_wrt_map)
qed

text \<open>
  C10. The view has the columns of the frame and its rows are a subsequence of the
  frame's rows, each with the label it has in the frame. On a frame with the default
  index, as the session's frame is, the labels of the view increase strictly, so no
  position occurs twice and the order of the table is kept, and the label of a view row
  is the position of that row in the frame.
\<close>

theorem view_is_subsequence:
  assumes "filtered_data re s uf sc st = Inr v"
  shows "columns v = columns (df s) \<and> subseq (rows v) (rows (df s)) \<and>
         (range_index (df s) \<longrightarrow>
            sorted_wrt (<) (map fst (rows v)) \<and> distinct (map fst (rows v)) \<and>
            (\<forall>(l, r) \<in> set (rows v). l < length (rows (df s)) \<and> rows (df s) ! l = (l, r)))"
proof -
  note v = filtered_data_Inr [OF assms]
  let ?p = "\<lambda>(l, r). search_hit re st r \<and> completed_visible sc r \<and> urgency_selected uf r"
  have rv: "rows v = filter ?p (rows (df s))"
    unfolding v by (auto intro!: filter_cong)
  have c: "columns v = columns (df s)" unfolding v by simp
  have sub: "subseq (rows v) (rows (df s))" unfolding rv by simp
  have "sorted_wrt (<) (map fst (rows v)) \<and> distinct (map fst (rows v)) \<and>
        (\<forall>(l, r) \<in> set (rows v). l < length (rows (df s)) \<and> rows (df s) ! l = (l, r))"
    if ri: "range_index (df s)"
  proof -
    have srt: "sorted_wrt (<) (map fst (rows v))"
      unfolding rv by (rule sorted_labels_filter [OF ri])
    then have "distinct (map fst (rows v))"
      by (simp add: strict_sorted_iff)
    moreover have "\<forall>(l, r) \<in> set (rows v). l < length (rows (df s)) \<and> rows (df s) ! l = (l, r)"
      using range_index_nth [OF ri] by (auto simp: rv)
    ultimately show ?thesis using srt by simp
  qed
  with c sub show ?thesis by simp
qed


lemma two_table_soon:
  "filtered_data re_literal \<lparr>df = two_table, conn = no_sheet\<rparr> [''Soon''] True [] = Inr eggs_view"
  by (simp add: filter_defs example_defs strip_def)

lemma range_index_examples: "range_index two_table" "range_index three_table"
  by (simp_all add: range_index_def example_defs)

theorem view_is_subsequence_witness:
  "filtered_data re_literal \<lparr>df = two_table, conn = no_sheet\<rparr> [''Soon''] True [] = Inr eggs_view \<and>
   range_index two_table \<and>
   columns eggs_view = columns two_table \<and> subseq (rows eggs_view) (rows two_table) \<and>
   sorted_wrt (<) (map fst (rows eggs_view)) \<and> distinct (map fst (rows eggs_view)) \<and>
   rows eggs_view = [(1, eggs_row)] \<and> rows two_table ! 1 = (1, eggs_row)"
proof -
  note t = view_is_subsequence [OF two_table_soon, simplified]
  have "rows eggs_view = [(1, eggs_row)] \<and> rows two_table ! 1 = (1, eggs_row)"
    by (simp add: two_table_def eggs_view_def)
  with t range_index_examples(1) two_table_soon show ?thesis by blast
qed

text \<open>
  C9, as the code has it. When the search text is not blank after trimming, every row of
  the view has a string in \<open>Item Needed\<close> or in \<open>Where to Get\<close> that the pattern is found
  in: a missing cell is never a hit, and a row with both cells missing is not in the view.
\<close>

theorem missing_fields_excluded:
  assumes "strip st \<noteq> []" and "filtered_data re s uf sc st = Inr v"
  shows "(\<forall>(l, r) \<in> set (rows v).
            \<exists>m x. re (lower (strip st)) = Some m \<and> m (lower x) \<and>
                  (cell r ''Item Needed'' = Str x \<or> cell r ''Where to Get'' = Str x)) \<and>
         (\<forall>l r. cell r ''Item Needed'' = NaN \<and> cell r ''Where to Get'' = NaN
                  \<longrightarrow> (l, r) \<notin> set (rows v))"
proof -
  note v = filtered_data_Inr [OF assms(2)]
  have hit: "search_hit re st r" if "(l, r) \<in> set (rows v)" for l r
    using that unfolding v by simp
  have a: "\<exists>m x. re (lower (strip st)) = Some m \<and> m (lower x) \<and>
                  (cell r ''Item Needed'' = Str x \<or> cell r ''Where to Get'' = Str x)"
    if "(l, r) \<in> set (rows v)" for l r
  proof -
    from hit [OF that] assms(1) obtain m where
      m: "re (lower (strip st)) = Some m" and
      f: "field_hit m (cell r ''Item Needed'') \<or> field_hit m (cell r ''Where to Get'')"
      by (auto simp: search_hit_def)
    from f show ?thesis
    proof
      assume "field_hit m (cell r ''Item Needed'')"
      then obtain x where "cell r ''Item Needed'' = Str x" "m (lower x)"
        by (cases "cell r ''Item Needed''") (auto simp: field_hit_def)
      with m show ?thesis by blast
    next
      assume "field_hit m (cell r ''Where to Get'')"
      then obtain x where "cell r ''Where to Get'' = Str x" "m (lower x)"
        by (cases "cell r ''Where to Get''") (auto simp: field_hit_def)
      with m show ?thesis by blast
    qed
  qed
  have b: "(l, r) \<notin> set (rows v)"
    if "cell r ''Item Needed'' = NaN \<and> cell r ''Where to Get'' = NaN" for l r
    using a [of l r] that by auto
  from a b show ?thesis by blast
qed

lemma three_table_search:
  "filtered_data re_literal \<lparr>df = three_table, conn = no_sheet\<rparr> [] True ''milk'' = Inr milk_table"
  by (simp add: filter_defs example_defs strings_eval re_literal_milk Let_def)


theorem missing_fields_excluded_witness:
  "strip ''milk'' \<noteq> [] \<and>
   filtered_data re_literal \<lparr>df = three_table, conn = no_sheet\<rparr> [] True ''milk'' = Inr milk_table \<and>
   (2, blank_row) \<in> set (rows three_table) \<and>
   cell blank_row ''Item Needed'' = NaN \<and> cell blank_row ''Where to Get'' = NaN \<and>
   (2, blank_row) \<notin> set (rows milk_table) \<and>
   (\<exists>m x. re_literal (lower (strip ''milk'')) = Some m \<and> m (lower x) \<and>
          (cell milk_row ''Item Needed'' = Str x \<or> cell milk_row ''Where to Get'' = Str x))"
proof -
  have h: "strip ''milk'' \<noteq> []" by (simp add: strings_eval)
  have c: "cell blank_row ''Item Needed'' = NaN \<and> cell blank_row ''Where to Get'' = NaN"
    by (simp add: blank_row_def cell_def)
  have m: "(2, blank_row) \<in> set (rows three_table)" by (simp add: three_table_def)
  have k: "(0, milk_row) \<in> set (rows milk_table)" by (simp add: milk_table_def)
  from missing_fields_excluded [OF h three_table_search] c m h three_table_search k
  show ?thesis by blast
qed

text \<open>
  The claim as stated fails: the search text of one blank is not empty, the search filter
  is skipped for it, and the row with both cells missing is in the view.
\<close>

theorem blank_search_counterexample:
  "'' '' \<noteq> [] \<and>
   filtered_data re_literal \<lparr>df = blank_table, conn = no_sheet\<rparr> [''Now''] True '' '' = Inr blank_table \<and>
   rows blank_table = [(0, blank_row)] \<and>
   cell blank_row ''Item Needed'' = NaN \<and> cell blank_row ''Where to Get'' = NaN"
  by (simp add: filter_defs example_defs strings_eval)

section \<open>Adding an item: the row stored\<close>

lemma ensure_column_present: "col \<in> set (columns d) \<Longrightarrow> ensure_column col d = d"
  by (simp add: ensure_column_def)

lemma fold_ensure_column_id:
  "set cs \<subseteq> set (columns d) \<Longrightarrow> fold ensure_column cs d = d"
  by (induction cs) (simp_all add: ensure_column_present)

lemma save_data_complete:
  "set canonical_columns \<subseteq> set (columns d) \<Longrightarrow> save_data c d = (gsheets_update c d, d)"
  by (simp add: save_data_def fold_ensure_column_id)

lemma reset_index_simps [simp]:
  "length (reset_index rs) = length rs"
  "map snd (reset_index rs) = rs"
  "map fst (reset_index rs) = [0..<length rs]"
  by (simp_all add: reset_index_def)

lemma reset_index_snoc:
  "reset_index (rs @ [r]) = reset_index rs @ [(length rs, r)]"
  by (simp add: reset_index_def)

lemma reset_index_range:
  "range_index d \<Longrightarrow> reset_index (map snd (rows d)) = rows d"
proof -
  assume "range_index d"
  then have "[0..<length (rows d)] = map fst (rows d)"
    by (simp add: range_index_def)
  then have "reset_index (map snd (rows d)) = zip (map fst (rows d)) (map snd (rows d))"
    by (simp add: reset_index_def)
  then show ?thesis by (simp add: zip_map_fst_snd)
qed

lemma cell_reindex: "c \<in> set cs \<Longrightarrow> cell (reindex cs r) c = cell r c"
  by (simp add: reindex_def cell_def)

lemma reindex_id: "dom r = set cs \<Longrightarrow> reindex cs r = r"
  by (rule ext) (auto simp: reindex_def cell_def split: option.splits)

lemma dom_new_row: "dom (new_row now i q w u) = set canonical_columns"
  by (auto simp: new_row_def canonical_columns_def)

lemma cell_new_row:
  "cell (new_row now i q w u) ''Date Added'' = Str now"
  "cell (new_row now i q w u) ''Item Needed'' = Str (strip i)"
  "cell (new_row now i q w u) ''Quantity'' = Str (strip q)"
  "cell (new_row now i q w u) ''Where to Get'' = Str (strip w)"
  "cell (new_row now i q w u) ''Urgency'' = Str u"
  "cell (new_row now i q w u) ''Completed'' = Bool False"
  by (simp_all add: new_row_def cell_def)

lemma concat_columns:
  "columns (concat_ignore_index a b) = columns a @ filter (\<lambda>c. c \<notin> set (columns a)) (columns b)"
  by (simp add: concat_ignore_index_def Let_def)

lemma add_item_accepted:
  assumes "strip item_needed \<noteq> []"
  shows "add_item now item_needed quantity where_to_get urgency s =
           (let d = concat_ignore_index (df s)
                      \<lparr>columns = canonical_columns,
                         rows = [(0, new_row now item_needed quantity where_to_get urgency)]\<rparr>
            in (\<lparr>df = d, conn = gsheets_update (conn s) d\<rparr>,
                SuccessNotice (''Added '' @ [CHR 0x27] @ item_needed @ [CHR 0x27] @ '' to the list!'')))"
proof -
  let ?d = "concat_ignore_index (df s)
              \<lparr>columns = canonical_columns,
                 rows = [(0, new_row now item_needed quantity where_to_get urgency)]\<rparr>"
  have "set canonical_columns \<subseteq> set (columns ?d)"
    by (auto simp: concat_columns)
  then have "save_data (conn s) ?d = (gsheets_update (conn s) ?d, ?d)"
    by (rule save_data_complete)
  then show ?thesis using assms by (simp add: add_item_def Let_def)
qed

lemma wf_frameD: "wf_frame d \<Longrightarrow> (l, r) \<in> set (rows d) \<Longrightarrow> dom r = set (columns d)"
  unfolding wf_frame_def by (drule (1) bspec) simp

lemma concat_table:
  assumes "is_table d" and "dom r = set canonical_columns"
  shows "concat_ignore_index d \<lparr>columns = canonical_columns, rows = [(0, r)]\<rparr>
           = \<lparr>columns = canonical_columns, rows = rows d @ [(length (rows d), r)]\<rparr>"
proof -
  from assms(1) have c: "columns d = canonical_columns" and w: "wf_frame d" and ri: "range_index d"
    by (simp_all add: is_table_def)
  have "(reindex canonical_columns \<circ> snd) x = snd x" if "x \<in> set (rows d)" for x
    using wf_frameD [OF w, of "fst x" "snd x"] that c by (simp add: reindex_id)
  then have m: "map (reindex canonical_columns \<circ> snd) (rows d) = map snd (rows d)"
    by (rule map_cong [OF refl])
  have f: "columns d @ filter (\<lambda>x. x \<notin> set (columns d)) canonical_columns = canonical_columns"
    unfolding c by simp
  have "rows (concat_ignore_index d \<lparr>columns = canonical_columns, rows = [(0, r)]\<rparr>)
          = reset_index (map (reindex canonical_columns \<circ> snd) (rows d) @ [reindex canonical_columns r])"
    unfolding concat_ignore_index_def Let_def by (simp add: f)
  also have "\<dots> = reset_index (map snd (rows d) @ [r])"
    unfolding m reindex_id [OF assms(2)] ..
  also have "\<dots> = rows d @ [(length (rows d), r)]"
    unfolding reset_index_snoc reset_index_range [OF ri] by simp
  finally have rw: "rows (concat_ignore_index d \<lparr>columns = canonical_columns, rows = [(0, r)]\<rparr>)
                      = rows d @ [(length (rows d), r)]" .
  have cl: "columns (concat_ignore_index d \<lparr>columns = canonical_columns, rows = [(0, r)]\<rparr>)
              = canonical_columns"
    unfolding concat_ignore_index_def Let_def by (simp add: f)
  show ?thesis
    by (rule frame.equality) (simp_all add: rw cl)
qed

lemma is_table_snoc:
  assumes "is_table d" and "dom r = set canonical_columns" and "is_bool (cell r ''Completed'')"
  shows "is_table \<lparr>columns = canonical_columns, rows = rows d @ [(length (rows d), r)]\<rparr>"
proof -
  from assms(1) have c: "columns d = canonical_columns" and w: "wf_frame d" and ri: "range_index d"
    and b: "\<forall>(l, r) \<in> set (rows d). is_bool (cell r ''Completed'')"
    by (simp_all add: is_table_def)
  have "wf_frame \<lparr>columns = canonical_columns, rows = rows d @ [(length (rows d), r)]\<rparr>"
    using w c assms(2) by (auto simp: wf_frame_def)
  moreover have "range_index \<lparr>columns = canonical_columns, rows = rows d @ [(length (rows d), r)]\<rparr>"
    using ri by (simp add: range_index_def)
  ultimately show ?thesis
    using b assms(3) by (auto simp: is_table_def)
qed

text \<open>
  C2. On a table, when the item name is not blank after trimming, the handler reports
  success and the session's frame is the old one with one more row at the end, under the
  next label: the length grows by one, the rows before it are unchanged, and the new row
  has the trimmed item name, \<open>Completed\<close> false and the current timestamp \<open>now\<close> in
  \<open>Date Added\<close>. The whole frame is then written to the worksheet by one call of
  \<open>conn.update\<close>, and the result is a table again.
\<close>

theorem add_item_appends:
  assumes "is_table (df s)" and "strip item_needed \<noteq> []"
  shows "\<exists>s' r. add_item now item_needed quantity where_to_get urgency s =
             (s', SuccessNotice (''Added '' @ [CHR 0x27] @ item_needed @ [CHR 0x27] @ '' to the list!'')) \<and>
           columns (df s') = canonical_columns \<and>
           length (rows (df s')) = length (rows (df s)) + 1 \<and>
           rows (df s') = rows (df s) @ [(length (rows (df s)), r)] \<and>
           cell r ''Item Needed'' = Str (strip item_needed) \<and>
           cell r ''Completed'' = Bool False \<and>
           cell r ''Date Added'' = Str now \<and>
           cell r ''Urgency'' = Str urgency \<and>
           sheet (conn s') = Some \<lparr>header = canonical_columns, records = map snd (rows (df s'))\<rparr> \<and>
           update_calls (conn s') = Suc (update_calls (conn s)) \<and>
           is_table (df s')"
proof -
  let ?r = "new_row now item_needed quantity where_to_get urgency"
  let ?d = "\<lparr>columns = canonical_columns, rows = rows (df s) @ [(length (rows (df s)), ?r)]\<rparr>"
  have d: "concat_ignore_index (df s) \<lparr>columns = canonical_columns, rows = [(0, ?r)]\<rparr> = ?d"
    by (rule concat_table [OF assms(1) dom_new_row])
  have t: "is_table ?d"
    by (rule is_table_snoc [OF assms(1) dom_new_row]) (simp add: cell_new_row is_bool_def)
  let ?s' = "\<lparr>df = ?d, conn = gsheets_update (conn s) ?d\<rparr>"
  have a: "add_item now item_needed quantity where_to_get urgency s =
             (?s', SuccessNotice (''Added '' @ [CHR 0x27] @ item_needed @ [CHR 0x27] @ '' to the list!''))"
    by (simp add: add_item_accepted [OF assms(2)] d Let_def)
  have t': "is_table (df ?s')" using t by simp
  have c1: "columns (df ?s') = canonical_columns" by simp
  have c2: "length (rows (df ?s')) = length (rows (df s)) + 1" by simp
  have c3: "rows (df ?s') = rows (df s) @ [(length (rows (df s)), ?r)]" by simp
  have c4: "sheet (conn ?s') = Some \<lparr>header = canonical_columns, records = map snd (rows (df ?s'))\<rparr>"
    by (simp add: gsheets_update_def)
  have c5: "update_calls (conn ?s') = Suc (update_calls (conn s))"
    by (simp add: gsheets_update_def)
  note c6 = cell_new_row [of now item_needed quantity where_to_get urgency]
  show ?thesis
    by (rule exI [of _ ?s'], rule exI [of _ ?r]) (intro conjI a c1 c2 c3 c4 c5 c6 t')
qed


lemma is_table_new_frame: "is_table new_frame"
  by (simp add: is_table_def new_frame_def wf_frame_def range_index_def)

lemma strip_Milk: "strip ''  Milk '' = ''Milk''" "strip ''2 gallons '' = ''2 gallons''"
  "strip '' Walmart'' = ''Walmart''"
  by code_simp+

theorem add_item_appends_witness:
  "is_table new_frame \<and> strip ''  Milk '' \<noteq> [] \<and>
   (\<exists>s' r. add_item ''2024-01-01 10:00'' ''  Milk '' ''2 gallons '' '' Walmart'' ''Now''
              \<lparr>df = new_frame, conn = no_sheet\<rparr>
            = (s', SuccessNotice (''Added '' @ [CHR 0x27] @ ''  Milk '' @ [CHR 0x27] @ '' to the list!'')) \<and>
           length (rows (df s')) = 1 \<and>
           rows (df s') = [(0, r)] \<and>
           cell r ''Item Needed'' = Str ''Milk'' \<and>
           cell r ''Completed'' = Bool False \<and>
           cell r ''Date Added'' = Str ''2024-01-01 10:00'' \<and>
           update_calls (conn s') = 1)"
proof -
  have h: "strip ''  Milk '' \<noteq> []" by (simp add: strip_Milk)
  from add_item_appends [OF _ h, of "\<lparr>df = new_frame, conn = no_sheet\<rparr>"
         "''2024-01-01 10:00''" "''2 gallons ''" "'' Walmart''" "''Now''"] is_table_new_frame
  obtain s' r where
    "add_item ''2024-01-01 10:00'' ''  Milk '' ''2 gallons '' '' Walmart'' ''Now''
              \<lparr>df = new_frame, conn = no_sheet\<rparr>
            = (s', SuccessNotice (''Added '' @ [CHR 0x27] @ ''  Milk '' @ [CHR 0x27] @ '' to the list!''))"
    "length (rows (df s')) = 1" "rows (df s') = [(0, r)]"
    "cell r ''Item Needed'' = Str ''Milk''" "cell r ''Completed'' = Bool False"
    "cell r ''Date Added'' = Str ''2024-01-01 10:00''" "update_calls (conn s') = 1"
    by (auto simp: new_frame_def no_sheet_def strip_Milk)
  with h is_table_new_frame show ?thesis by blast
qed

lemma add_item_last_row:
  assumes "strip item_needed \<noteq> []" and "c \<in> set canonical_columns"
  shows "length (rows (df (fst (add_item now item_needed quantity where_to_get urgency s))))
           = Suc (length (rows (df s))) \<and>
         cell (snd (last (rows (df (fst (add_item now item_needed quantity where_to_get urgency s)))))) c
           = cell (new_row now item_needed quantity where_to_get urgency) c"
proof -
  let ?r = "new_row now item_needed quantity where_to_get urgency"
  let ?b = "\<lparr>columns = canonical_columns, rows = [(0, ?r)]\<rparr>"
  let ?cs = "columns (concat_ignore_index (df s) ?b)"
  have d: "df (fst (add_item now item_needed quantity where_to_get urgency s))
             = concat_ignore_index (df s) ?b"
    by (simp add: add_item_accepted [OF assms(1)] Let_def)
  have r: "rows (concat_ignore_index (df s) ?b)
             = reset_index (map (reindex ?cs \<circ> snd) (rows (df s))) @ [(length (rows (df s)), reindex ?cs ?r)]"
    by (simp add: concat_ignore_index_def Let_def reset_index_def)
  have "c \<in> set ?cs" using assms(2) by (auto simp: concat_columns)
  then show ?thesis
    unfolding d r by (simp add: cell_reindex)
qed

text \<open>
  C8. Whenever the handler adds a row (the item name is not blank after trimming), on
  any frame, the row it stores, the last one, has the trimmed quantity in \<open>Quantity\<close> and
  the trimmed shop in \<open>Where to Get\<close>.
\<close>

theorem add_item_trims_optional:
  assumes "strip item_needed \<noteq> []"
  shows "cell (snd (last (rows (df (fst (add_item now item_needed quantity where_to_get urgency s))))))
           ''Quantity'' = Str (strip quantity) \<and>
         cell (snd (last (rows (df (fst (add_item now item_needed quantity where_to_get urgency s))))))
           ''Where to Get'' = Str (strip where_to_get) \<and>
         length (rows (df (fst (add_item now item_needed quantity where_to_get urgency s))))
           = Suc (length (rows (df s)))"
  using add_item_last_row [OF assms, of "''Quantity''" now quantity where_to_get urgency s]
        add_item_last_row [OF assms, of "''Where to Get''" now quantity where_to_get urgency s]
  by (simp add: canonical_columns_def cell_new_row)

theorem add_item_trims_optional_witness:
  "strip ''  Milk '' \<noteq> [] \<and>
   cell (snd (last (rows (df (fst (add_item ''2024-01-01 10:00'' ''  Milk '' ''2 gallons '' '' Walmart'' ''Now''
              \<lparr>df = two_table, conn = no_sheet\<rparr>)))))) ''Quantity'' = Str ''2 gallons'' \<and>
   cell (snd (last (rows (df (fst (add_item ''2024-01-01 10:00'' ''  Milk '' ''2 gallons '' '' Walmart'' ''Now''
              \<lparr>df = two_table, conn = no_sheet\<rparr>)))))) ''Where to Get'' = Str ''Walmart'' \<and>
   length (rows (df (fst (add_item ''2024-01-01 10:00'' ''  Milk '' ''2 gallons '' '' Walmart'' ''Now''
              \<lparr>df = two_table, conn = no_sheet\<rparr>)))) = 3"
proof -
  have h: "strip ''  Milk '' \<noteq> []" by (simp add: strip_Milk)
  show ?thesis
    using h add_item_trims_optional [OF h, of "''2024-01-01 10:00''" "''2 gallons ''" "'' Walmart''"
                 "''Now''" "\<lparr>df = two_table, conn = no_sheet\<rparr>"]
    by (simp add: strip_Milk two_table_def)
qed

section \<open>Writing the edits back\<close>











text \<open>The section does nothing on an empty view: the write-back and the save are in
  the other branch.\<close>

lemma edit_section_empty_view: "df_empty view \<Longrightarrow> edit_section data_editor view s = Inr s"
  by (simp add: edit_section_def)

section \<open>Loading and saving\<close>

lemma map_column_nil: "rows d = [] \<Longrightarrow> map_column c f d = d"
  by (simp add: map_column_def)

lemma completed_bool_fixed:
  assumes "bool_completed r"
  shows "r(''Completed'' \<mapsto> fillna_astype_bool (cell r ''Completed'')) = r"
proof -
  from assms obtain b where b: "r ''Completed'' = Some (Bool b)"
    by (auto simp: bool_completed_def split: option.splits val.splits)
  then have "fillna_astype_bool (cell r ''Completed'') = Bool b"
    by (simp add: cell_def fillna_astype_bool_def)
  with b show ?thesis by (simp add: fun_upd_idem)
qed

lemma map_column_fixed:
  assumes "list_all bool_completed (map snd (rows d))"
  shows "map_column ''Completed'' fillna_astype_bool d = d"
proof -
  have "(\<lambda>(l, r). (l, r(''Completed'' \<mapsto> fillna_astype_bool (cell r ''Completed'')))) x = x"
    if "x \<in> set (rows d)" for x
  proof -
    from assms that have "bool_completed (snd x)"
      by (simp add: list_all_iff)
    from completed_bool_fixed [OF this] show ?thesis by (simp add: split_beta)
  qed
  then have "map (\<lambda>(l, r). (l, r(''Completed'' \<mapsto> fillna_astype_bool (cell r ''Completed'')))) (rows d)
               = rows d"
    by (simp add: map_idI)
  then show ?thesis by (simp add: map_column_def)
qed

lemma load_save_normalised:
  assumes "sheet c = Some w" and "normalised w"
  shows "save_data c (load_data_body c)
           = (c\<lparr>update_calls := Suc (update_calls c)\<rparr>,
              \<lparr>columns = header w, rows = reset_index (records w)\<rparr>)"
proof -
  let ?d = "\<lparr>columns = header w, rows = reset_index (records w)\<rparr>"
  from assms(2) have sub: "set canonical_columns \<subseteq> set (header w)"
    and e: "records w = [] \<longrightarrow> header w = canonical_columns"
    and b: "list_all bool_completed (records w)"
    by (auto simp: normalised_def list_all_iff)
  have cm: "''Completed'' \<in> set (header w)"
    using sub by (auto simp: canonical_columns_def)
  have rd: "gsheets_read c = Some ?d"
    by (simp add: gsheets_read_def assms(1))
  have ld: "load_data_body c = ?d"
  proof (cases "records w = []")
    case True
    with e have "?d = new_frame" by (simp add: new_frame_def reset_index_def)
    then show ?thesis
      using cm by (simp add: load_data_body_def rd df_empty_def map_column_nil new_frame_def)
  next
    case False
    then have ne: "\<not> df_empty ?d"
      using cm by (auto simp: df_empty_def reset_index_def)
    have "map_column ''Completed'' fillna_astype_bool ?d = ?d"
      by (rule map_column_fixed) (simp add: b)
    then show ?thesis
      using cm ne by (simp add: load_data_body_def rd)
  qed
  have "save_data c ?d = (gsheets_update c ?d, ?d)"
    by (rule save_data_complete) (simp add: sub)
  moreover have "gsheets_update c ?d = c\<lparr>update_calls := Suc (update_calls c)\<rparr>"
    using assms(1) by (simp add: gsheets_update_def)
  ultimately show ?thesis by (simp add: ld)
qed


lemma load_data_miss:
  "\<not> fresh cache now \<Longrightarrow>
     load_data cache now c
       = (load_data_body c, Some \<lparr>cached = load_data_body c, cached_at = now\<rparr>)"
  by (cases cache) (simp_all add: load_data_def fresh_def Let_def)

lemma load_data_hit:
  "cache = Some e \<Longrightarrow> now < cached_at e + ttl \<Longrightarrow> load_data cache now c = (cached e, cache)"
  by (simp add: load_data_def)

text \<open>
  C5, as the code has it. When \<open>load_data\<close> reads the worksheet (no frame kept less than
  60 seconds before is served) and the worksheet is normalised (each of the six columns,
  a boolean in each \<open>Completed\<close> cell, and the six columns as header when there is no
  record), loading and then saving leaves the worksheet as it was.
\<close>

theorem load_save_roundtrip:
  assumes "\<not> fresh cache now" and "sheet c = Some w" and "normalised w"
  shows "sheet (fst (save_data c (fst (load_data cache now c)))) = sheet c"
  using load_data_miss [OF assms(1), of c] load_save_normalised [OF assms(2) assms(3)]
  by simp

lemma normalised_two_sheet:
  "normalised \<lparr>header = canonical_columns, records = [milk_row, eggs_row]\<rparr>"
  by (simp add: normalised_def bool_completed_def milk_row_def eggs_row_def list_all_iff)

lemma fresh_examples:
  "\<not> fresh None 0" "\<not> fresh milk_cache 160" "fresh milk_cache 130"
  by (simp_all add: fresh_def milk_cache_def ttl_def)

theorem load_save_roundtrip_witness:
  "\<not> fresh milk_cache 160 \<and>
   sheet two_sheet = Some \<lparr>header = canonical_columns, records = [milk_row, eggs_row]\<rparr> \<and>
   normalised \<lparr>header = canonical_columns, records = [milk_row, eggs_row]\<rparr> \<and>
   sheet (fst (save_data two_sheet (fst (load_data milk_cache 160 two_sheet)))) = sheet two_sheet"
proof -
  have s: "sheet two_sheet = Some \<lparr>header = canonical_columns, records = [milk_row, eggs_row]\<rparr>"
    by (simp add: two_sheet_def)
  from load_save_roundtrip [OF fresh_examples(2) s normalised_two_sheet]
       fresh_examples(2) s normalised_two_sheet
  show ?thesis by simp
qed

lemma load_unticked:
  "load_data_body unticked_sheet
     = \<lparr>columns = canonical_columns, rows = [(0, unticked_row(''Completed'' \<mapsto> Bool False))]\<rparr>"
proof -
  have c: "cell unticked_row ''Completed'' = NaN"
    by (simp add: unticked_row_def cell_def)
  have m: "''Completed'' \<in> set canonical_columns" "canonical_columns \<noteq> []"
    by (simp_all add: canonical_columns_def)
  show ?thesis
    by (simp add: load_data_body_def gsheets_read_def unticked_sheet_def reset_index_def df_empty_def
                  map_column_def m c fillna_astype_bool_def)
qed

lemma unticked_roundtrip:
  "sheet (fst (save_data unticked_sheet (fst (load_data None 0 unticked_sheet))))
     = Some \<lparr>header = canonical_columns, records = [unticked_row(''Completed'' \<mapsto> Bool False)]\<rparr>"
proof -
  have l: "fst (load_data None 0 unticked_sheet) = load_data_body unticked_sheet"
    by (simp add: load_data_def Let_def)
  have "save_data unticked_sheet (load_data_body unticked_sheet)
          = (gsheets_update unticked_sheet (load_data_body unticked_sheet),
             load_data_body unticked_sheet)"
    by (rule save_data_complete) (simp add: load_unticked)
  then show ?thesis
    by (simp add: l gsheets_update_def load_unticked)
qed

lemma stale_roundtrip:
  "sheet (fst (save_data two_sheet (fst (load_data milk_cache 130 two_sheet))))
     = Some \<lparr>header = canonical_columns, records = [milk_row]\<rparr>"
proof -
  let ?d = "\<lparr>columns = canonical_columns, rows = [(0, milk_row)]\<rparr>"
  have l: "fst (load_data milk_cache 130 two_sheet) = ?d"
    by (simp add: load_data_def milk_cache_def ttl_def)
  have "save_data two_sheet ?d = (gsheets_update two_sheet ?d, ?d)"
    by (rule save_data_complete) simp
  then show ?thesis
    by (simp add: l gsheets_update_def)
qed

text \<open>
  The claim as stated fails, in two ways. A record with a blank \<open>Completed\<close> cell is
  loaded with \<open>False\<close> in it (\<open>fillna(False)\<close>), and the save writes that back. And a
  load served from the frame kept 30 seconds before, when the sheet had one row, is saved
  over the sheet that has two rows by now, and the second row is lost.
\<close>

theorem load_save_counterexample:
  "sheet unticked_sheet = Some \<lparr>header = canonical_columns, records = [unticked_row]\<rparr> \<and>
   unticked_row ''Completed'' = Some NaN \<and>
   sheet (fst (save_data unticked_sheet (fst (load_data None 0 unticked_sheet))))
     = Some \<lparr>header = canonical_columns, records = [unticked_row(''Completed'' \<mapsto> Bool False)]\<rparr> \<and>
   sheet (fst (save_data unticked_sheet (fst (load_data None 0 unticked_sheet))))
     \<noteq> sheet unticked_sheet \<and>
   sheet two_sheet = Some \<lparr>header = canonical_columns, records = [milk_row, eggs_row]\<rparr> \<and>
   normalised \<lparr>header = canonical_columns, records = [milk_row, eggs_row]\<rparr> \<and>
   fresh milk_cache 130 \<and>
   sheet (fst (save_data two_sheet (fst (load_data milk_cache 130 two_sheet))))
     = Some \<lparr>header = canonical_columns, records = [milk_row]\<rparr> \<and>
   sheet (fst (save_data two_sheet (fst (load_data milk_cache 130 two_sheet))))
     \<noteq> sheet two_sheet"
proof -
  have s: "sheet unticked_sheet = Some \<lparr>header = canonical_columns, records = [unticked_row]\<rparr>"
    by (simp add: unticked_sheet_def)
  have n: "unticked_row ''Completed'' = Some NaN"
    by (simp add: unticked_row_def)
  have "unticked_row(''Completed'' \<mapsto> Bool False) \<noteq> unticked_row"
  proof
    assume "unticked_row(''Completed'' \<mapsto> Bool False) = unticked_row"
    then have "(unticked_row(''Completed'' \<mapsto> Bool False)) ''Completed'' = unticked_row ''Completed''"
      by simp
    with n show False by simp
  qed
  then have a: "sheet (fst (save_data unticked_sheet (fst (load_data None 0 unticked_sheet))))
                  \<noteq> sheet unticked_sheet"
    by (simp add: unticked_roundtrip s)
  have t: "sheet two_sheet = Some \<lparr>header = canonical_columns, records = [milk_row, eggs_row]\<rparr>"
    by (simp add: two_sheet_def)
  have b: "sheet (fst (save_data two_sheet (fst (load_data milk_cache 130 two_sheet))))
             \<noteq> sheet two_sheet"
    by (simp add: stale_roundtrip t)
  from s n unticked_roundtrip a t normalised_two_sheet fresh_examples(3) stale_roundtrip b
  show ?thesis by simp
qed

section \<open>The export: lines\<close>

lemma lines_from_line:
  "LF \<notin> set l \<Longrightarrow> lines_from cur (l @ LF # rest) = (cur @ l) # lines_from [] rest"
  by (induction l arbitrary: cur) auto

lemma text_lines_concat:
  "\<forall>l \<in> set ls. LF \<notin> set l \<Longrightarrow> text_lines (concat (map (\<lambda>l. l @ [LF]) ls)) = ls"
proof (induction ls)
  case Nil
  then show ?case by (simp add: text_lines_def)
next
  case (Cons a ls)
  then show ?case
    using lines_from_line [of a "[]" "concat (map (\<lambda>l. l @ [LF]) ls)"]
    by (simp add: text_lines_def)
qed

lemma LF_csv_field: "LF \<notin> set f \<Longrightarrow> LF \<notin> set (csv_field f)"
  by (auto simp: csv_field_def LF_def split: if_splits)

lemma LF_join: "\<forall>f \<in> set fs. LF \<notin> set f \<Longrightarrow> LF \<notin> set (join '','' fs)"
  by (induction "'',''" fs rule: join.induct) (auto simp: LF_def)

lemma LF_csv_record:
  assumes "\<forall>f \<in> set fs. LF \<notin> set f"
  shows "LF \<notin> set (csv_record fs)"
proof (cases "fs = [[]]")
  case True
  then show ?thesis by (simp add: csv_record_def LF_def)
next
  case False
  have "\<forall>f \<in> set (map csv_field fs). LF \<notin> set f"
    using assms by (simp add: LF_csv_field)
  from LF_join [OF this] False show ?thesis by (simp add: csv_record_def)
qed

lemma csv_record_header: "csv_record canonical_columns = csv_header"
  by code_simp


lemma single_lineD:
  assumes "single_line d" and "(l, r) \<in> set (rows d)"
  shows "LF \<notin> set (csv_row (columns d) r)"
proof -
  from assms have "case (l, r) of (l, r) \<Rightarrow>
                     \<forall>c \<in> set (columns d). LF \<notin> set (format_val (cell r c))"
    unfolding single_line_def list_all_iff by (rule bspec)
  then have "\<forall>c \<in> set (columns d). LF \<notin> set (format_val (cell r c))"
    by simp
  then have "\<forall>f \<in> set (map (\<lambda>c. format_val (cell r c)) (columns d)). LF \<notin> set f"
    by simp
  then show ?thesis unfolding csv_row_def by (rule LF_csv_record)
qed

lemma LF_csv_header: "LF \<notin> set csv_header"
  by (simp add: csv_header_def LF_def)

text \<open>
  C7, as the code has it. The export is of the session's frame, whatever the filters.
  A frame without rows gives no export. For a frame with the six columns, at least one
  row and no line feed in any cell, the export is a text whose lines are the header of
  the six column names in their order and then one line for each row, in the order of
  the rows: one line more than there are rows.
\<close>

theorem export_csv_lines:
  "(rows (df s) = [] \<longrightarrow> export_csv s = None) \<and>
   (columns (df s) = canonical_columns \<and> rows (df s) \<noteq> [] \<and> single_line (df s) \<longrightarrow>
      (\<exists>txt. export_csv s = Some txt \<and>
             text_lines txt = csv_header # map (\<lambda>(l, r). csv_row canonical_columns r) (rows (df s)) \<and>
             length (text_lines txt) = length (rows (df s)) + 1))"
proof -
  have a: "export_csv s = None" if "rows (df s) = []"
    using that by (simp add: export_csv_def df_empty_def)
  have b: "\<exists>txt. export_csv s = Some txt \<and>
             text_lines txt = csv_header # map (\<lambda>(l, r). csv_row canonical_columns r) (rows (df s)) \<and>
             length (text_lines txt) = length (rows (df s)) + 1"
    if h: "columns (df s) = canonical_columns \<and> rows (df s) \<noteq> [] \<and> single_line (df s)"
  proof -
    let ?ls = "csv_header # map (\<lambda>(l, r). csv_row canonical_columns r) (rows (df s))"
    from h have c: "columns (df s) = canonical_columns" and ne: "rows (df s) \<noteq> []"
      and sl: "single_line (df s)" by simp_all
    have e: "export_csv s = Some (to_csv (df s))"
      using c ne by (simp add: export_csv_def df_empty_def canonical_columns_def)
    have t: "to_csv (df s) = concat (map (\<lambda>l. l @ [LF]) ?ls)"
      by (simp add: to_csv_def c csv_record_header)
    have "\<forall>l \<in> set ?ls. LF \<notin> set l"
      using single_lineD [OF sl] LF_csv_header c by auto
    then have "text_lines (to_csv (df s)) = ?ls"
      unfolding t by (rule text_lines_concat)
    with e show ?thesis by simp
  qed
  from a b show ?thesis by blast
qed


lemma two_table_csv:
  "single_line two_table"
  "csv_row canonical_columns milk_row = ''2024-01-01 10:00,Milk,2 gallons,Walmart,Now,False''"
  "csv_row canonical_columns eggs_row = ''2024-01-02 09:30,Eggs,12,Aldi,Soon,True''"
  by code_simp+

theorem export_csv_lines_witness:
  "columns two_table = canonical_columns \<and> rows two_table \<noteq> [] \<and> single_line two_table \<and>
   export_csv \<lparr>df = two_table, conn = no_sheet\<rparr> = Some (to_csv two_table) \<and>
   text_lines (to_csv two_table)
     = [csv_header,
        ''2024-01-01 10:00,Milk,2 gallons,Walmart,Now,False'',
        ''2024-01-02 09:30,Eggs,12,Aldi,Soon,True''] \<and>
   length (text_lines (to_csv two_table)) = 3 \<and>
   export_csv \<lparr>df = new_frame, conn = no_sheet\<rparr> = None"
proof -
  have h: "columns two_table = canonical_columns \<and> rows two_table \<noteq> []"
    by (simp add: two_table_def)
  have e: "export_csv \<lparr>df = two_table, conn = no_sheet\<rparr> = Some (to_csv two_table)"
    by (simp add: export_csv_def df_empty_def two_table_def canonical_columns_def)
  have r: "rows two_table = [(0, milk_row), (1, eggs_row)]" "rows new_frame = []"
    by (simp_all add: two_table_def new_frame_def)
  from export_csv_lines [of "\<lparr>df = two_table, conn = no_sheet\<rparr>"]
       export_csv_lines [of "\<lparr>df = new_frame, conn = no_sheet\<rparr>"]
       h e two_table_csv(1)
  show ?thesis by (simp add: r two_table_csv)
qed

lemma two_line_lines: "length (text_lines (to_csv two_line_table)) = 3"
  by code_simp

text \<open>
  The claim as stated fails: a cell with a line feed in it is written in quotes with its
  line feed, so the table of this one row is exported as three lines, not two.
\<close>

theorem export_csv_counterexample:
  "columns two_line_table = canonical_columns \<and>
   length (rows two_line_table) = 1 \<and>
   export_csv \<lparr>df = two_line_table, conn = no_sheet\<rparr> = Some (to_csv two_line_table) \<and>
   length (text_lines (to_csv two_line_table)) = 3"
proof -
  have "columns two_line_table = canonical_columns \<and> length (rows two_line_table) = 1 \<and>
        export_csv \<lparr>df = two_line_table, conn = no_sheet\<rparr> = Some (to_csv two_line_table)"
    by (simp add: export_csv_def df_empty_def two_line_table_def canonical_columns_def)
  with two_line_lines show ?thesis by simp
qed

section \<open>The literal engine, and a new list\<close>

text \<open>With \<open>re_literal\<close> and a pattern without a metacharacter the search is the substring
  test on the two fields in lower case.\<close>

lemma substring_iff: "substring pat s \<longleftrightarrow> sublist pat s"
proof (induction s)
  case Nil
  then show ?case by simp
next
  case (Cons c s)
  then show ?case by (simp add: sublist_Cons_right)
qed

lemma match_here_prefix: "CHR ''.'' \<notin> set pat \<Longrightarrow> match_here pat s \<longleftrightarrow> prefix pat s"
proof (induction pat s rule: match_here.induct)
  case (1 s)
  then show ?case by simp
next
  case (2 p ps)
  then show ?case by simp
next
  case (3 p ps c s)
  then show ?case by auto
qed

lemma re_search_substring: "CHR ''.'' \<notin> set pat \<Longrightarrow> re_search pat s \<longleftrightarrow> substring pat s"
proof (induction s)
  case Nil
  then show ?case by (cases pat) simp_all
next
  case (Cons c s)
  then show ?case by (simp add: match_here_prefix)
qed

lemma search_hit_literal:
  assumes "\<not> list_ex (\<lambda>c. c \<in> set re_metachars) (lower (strip st))"
  shows "search_hit re_literal st r \<longleftrightarrow>
           strip st = [] \<or>
           (\<exists>x. (cell r ''Item Needed'' = Str x \<or> cell r ''Where to Get'' = Str x) \<and>
                sublist (lower (strip st)) (lower x))"
proof -
  from assms have d: "CHR ''.'' \<notin> set (lower (strip st))"
    by (auto simp: list_ex_iff re_metachars_def)
  from assms have n: "\<not> list_ex (\<lambda>c. c \<in> set re_metachars \<and> c \<noteq> CHR ''.'') (lower (strip st))"
    by (auto simp: list_ex_iff)
  have r: "re_literal (lower (strip st)) = Some (re_search (lower (strip st)))"
    using n by (simp add: re_literal_def)
  have f: "field_hit (re_search (lower (strip st))) v
             \<longleftrightarrow> (\<exists>x. v = Str x \<and> sublist (lower (strip st)) (lower x))" for v
    by (cases v) (simp_all add: field_hit_def re_search_substring [OF d] substring_iff)
  show ?thesis
    unfolding search_hit_def r by (auto simp: f)
qed

lemma create_new_list_table:
  "create_new_list s = \<lparr>df = new_frame, conn = gsheets_update (conn s) new_frame\<rparr>"
  "is_table new_frame"
proof -
  have "save_data (conn s) new_frame = (gsheets_update (conn s) new_frame, new_frame)"
    by (rule save_data_complete) (simp add: new_frame_def)
  then show "create_new_list s = \<lparr>df = new_frame, conn = gsheets_update (conn s) new_frame\<rparr>"
    by (simp add: create_new_list_def)
  show "is_table new_frame" by (rule is_table_new_frame)
qed

end
